theory Spec2Isabelle
  imports Main "HOL-Library.Sublist"
begin

section \<open>Endpoint Configurator: the bash cell of the notebook\<close>

text \<open>
  The cell (lines 73 to 86 of \<^verbatim>\<open>Spark-EMR-Snowflake.ipynb\<close>):
  \<^verbatim>\<open>
  EMR_MASTER_INTERNAL_IP=ip-172-31-58-190.ec2.internal
  CONF=/home/ec2-user/.sparkmagic/config.json
  if [[ ! -e $CONF.bk ]]
  then
     wget "https://.../example_config.json" -P ... -O /home/ec2-user/.sparkmagic/config.json.bk 2>/dev/null
  fi
  cat $CONF.bk | sed "s/localhost/$EMR_MASTER_INTERNAL_IP/" > $CONF.new
  if [[ $(diff $CONF.new $CONF) ]]
  then
     echo "Configuration has changed; Restart Kernel"
  fi
  cp $CONF.new $CONF
  \<close>
  The value of \<^verbatim>\<open>EMR_MASTER_INTERNAL_IP\<close> is the target address; it is a parameter of the
  model. The three files are the state; the directory is taken to be writable.
\<close>

definition placeholder :: string where
  "placeholder = ''localhost''"

definition restart_msg :: string where
  "restart_msg = ''Configuration has changed; Restart Kernel''"

definition newline :: char where
  "newline = CHR 0x0A"

definition backslash :: char where
  "backslash = CHR 0x5C"

subsection \<open>The sed script \<^verbatim>\<open>s/localhost/$EMR_MASTER_INTERNAL_IP/\<close>\<close>

text \<open>
  The address is pasted into the script unquoted, so sed reads it as script text. Up to
  its first unquoted \<^verbatim>\<open>/\<close> it is the replacement of the \<^verbatim>\<open>s\<close> command: \<^verbatim>\<open>&\<close> and \<^verbatim>\<open>\0\<close>
  stand for the matched text and a backslash quotes the next character. sed rejects the
  script for an unquoted line break in the replacement (\<^verbatim>\<open>unterminated `s' command\<close>),
  for a backslash at the very end (it quotes the script's closing \<^verbatim>\<open>/\<close>) and for a
  back-reference \<^verbatim>\<open>\1\<close> .. \<^verbatim>\<open>\9\<close> (the pattern has no group): that is \<open>Bad\<close>. GNU sed
  gives a backslash before the letters \<^verbatim>\<open>E L U l u c d o x a f n r t v\<close> a meaning of its
  own (case conversion, character codes, control characters); a replacement with one of
  them is \<open>Beyond\<close> this model. \<open>Rhs items rest\<close> is a replacement that was read: \<open>rest\<close>
  is \<open>None\<close> when the address has no unquoted \<^verbatim>\<open>/\<close>, and else what follows the first
  one.
\<close>

datatype rhs_item = Lit char | Whole_match

datatype rhs = Bad | Beyond | Rhs "rhs_item list" "string option"

fun rhs_cons :: "rhs_item \<Rightarrow> rhs \<Rightarrow> rhs" where
  "rhs_cons i Bad = Bad"
| "rhs_cons i Beyond = Beyond"
| "rhs_cons i (Rhs items rest) = Rhs (i # items) rest"

fun sed_rhs :: "string \<Rightarrow> rhs" where
  "sed_rhs [] = Rhs [] None"
| "sed_rhs [c] =
     (if c = newline \<or> c = backslash then Bad
      else if c = CHR ''/'' then Rhs [] (Some [])
      else if c = CHR ''&'' then Rhs [Whole_match] None
      else Rhs [Lit c] None)"
| "sed_rhs (c # d # ds) =
     (if c = newline then Bad
      else if c = CHR ''/'' then Rhs [] (Some (d # ds))
      else if c = backslash then
        (if d \<in> set ''123456789'' then Bad
         else if d \<in> set ''ELUlucdoxafnrtv'' then Beyond
         else if d = CHR ''0'' then rhs_cons Whole_match (sed_rhs ds)
         else rhs_cons (Lit d) (sed_rhs ds))
      else if c = CHR ''&'' then rhs_cons Whole_match (sed_rhs (d # ds))
      else rhs_cons (Lit c) (sed_rhs (d # ds)))"

fun expand :: "rhs_item list \<Rightarrow> string" where
  "expand [] = []"
| "expand (Lit c # is) = c # expand is"
| "expand (Whole_match # is) = placeholder @ expand is"

text \<open>
  After an unquoted \<^verbatim>\<open>/\<close>, the rest of the address and the script's own closing \<^verbatim>\<open>/\<close>
  follow the \<^verbatim>\<open>s\<close> command. sed reads them as flags of the command up to a \<^verbatim>\<open>#\<close>, a
  \<^verbatim>\<open>;\<close> or a line break, and as further script text from there on. A rest without
  \<^verbatim>\<open>#\<close>, \<^verbatim>\<open>;\<close> and line break is always rejected: its last character, the closing
  \<^verbatim>\<open>/\<close>, is no flag (\<^verbatim>\<open>unknown option to `s'\<close>), and the file name of a \<^verbatim>\<open>w\<close> flag would
  end in that \<^verbatim>\<open>/\<close> (\<^verbatim>\<open>couldn't open file\<close>).

  Further script text can be any sed program. The model knows three such rests, each an
  \<^verbatim>\<open>e\<close> command, by which sed runs a shell command in every cycle, after the
  substitution and before it prints the line; the trailing \<^verbatim>\<open>;#\<close> makes the shell take
  the script's closing \<^verbatim>\<open>/\<close> for a comment. Every other rest with a \<^verbatim>\<open>#\<close>, a \<^verbatim>\<open>;\<close>
  or a line break is \<open>Unmodelled\<close>.
\<close>

definition CONF :: string where
  "CONF = ''/home/ec2-user/.sparkmagic/config.json''"

datatype shell_cmd = Rm_bk | Rm_new | Cat_conf

definition e_command :: "string \<Rightarrow> shell_cmd option" where
  "e_command rest =
     (if rest = '';e rm -f '' @ CONF @ ''.bk;#'' then Some Rm_bk
      else if rest = '';e rm -f '' @ CONF @ ''.new;#'' then Some Rm_new
      else if rest = '';e cat '' @ CONF @ '';#'' then Some Cat_conf
      else None)"

text \<open>\<open>Subst items None\<close> is the lone \<^verbatim>\<open>s\<close> command, \<open>Subst items (Some c)\<close> the
  \<^verbatim>\<open>s\<close> command followed by an \<^verbatim>\<open>e\<close> command.\<close>

datatype script = Rejected | Subst "rhs_item list" "shell_cmd option" | Unmodelled

definition sed_script :: "string \<Rightarrow> script" where
  "sed_script A =
     (case sed_rhs A of
        Bad \<Rightarrow> Rejected
      | Beyond \<Rightarrow> Unmodelled
      | Rhs items None \<Rightarrow> Subst items None
      | Rhs items (Some rest) \<Rightarrow>
          (if list_all (\<lambda>c. c \<noteq> CHR ''#'' \<and> c \<noteq> CHR '';'' \<and> c \<noteq> newline) rest then Rejected
           else (case e_command rest of
                   Some c \<Rightarrow> Subst items (Some c)
                 | None \<Rightarrow> Unmodelled)))"

text \<open>
  The \<^verbatim>\<open>s\<close> command has no \<^verbatim>\<open>g\<close> flag: on each line sed replaces the leftmost match of
  the pattern and copies the rest of the line.
\<close>

fun sub_first :: "string \<Rightarrow> string \<Rightarrow> string" where
  "sub_first r [] = []"
| "sub_first r (c # cs) =
     (if prefix placeholder (c # cs) then r @ drop (length placeholder) (c # cs)
      else c # sub_first r cs)"

text \<open>
  sed works line by line. A text is cut at its line breaks; a text that ends in a line
  break has an empty last piece, which no substitution changes, so that joining the
  pieces gives back the line breaks of the input as sed's output has them.
\<close>

fun split_lines :: "string \<Rightarrow> string list" where
  "split_lines [] = [[]]"
| "split_lines (c # cs) =
     (if c = newline then [] # split_lines cs
      else (case split_lines cs of [] \<Rightarrow> [[c]] | l # ls \<Rightarrow> (c # l) # ls))"

fun join_lines :: "string list \<Rightarrow> string" where
  "join_lines [] = []"
| "join_lines [l] = l"
| "join_lines (l # ls) = l @ newline # join_lines ls"

text \<open>Standard output of \<^verbatim>\<open>sed "s/localhost/A/"\<close> on the given input when the script is
  a lone \<^verbatim>\<open>s\<close> command, and the empty output of a script that is not.\<close>

definition sed_output :: "string \<Rightarrow> string \<Rightarrow> string" where
  "sed_output A input =
     (case sed_script A of
        Subst items None \<Rightarrow> join_lines (map (sub_first (expand items)) (split_lines input))
      | _ \<Rightarrow> [])"

subsection \<open>The files and the other commands\<close>

text \<open>\<open>None\<close> is a file that does not exist.\<close>

record files =
  conf_bk :: "string option"
  conf_new :: "string option"
  conf :: "string option"

text \<open>
  \<^verbatim>\<open>wget -O file\<close> opens (creates or truncates) the output file before it transfers
  anything: an unreachable template leaves an empty file. \<open>None\<close> is the unreachable
  template.
\<close>

definition wget :: "string option \<Rightarrow> string" where
  "wget remote = (case remote of None \<Rightarrow> [] | Some body \<Rightarrow> body)"

text \<open>\<^verbatim>\<open>cat\<close> of a missing file writes nothing to its standard output.\<close>

definition cat :: "string option \<Rightarrow> string" where
  "cat f = (case f of None \<Rightarrow> [] | Some body \<Rightarrow> body)"

text \<open>
  \<^verbatim>\<open>diff\<close> exits with 0 when the files are the same, with 1 when they differ and with 2
  on trouble, such as a missing operand. It writes the differences to its standard
  output and its complaints to its standard error, which \<^verbatim>\<open>$(...)\<close> does not capture.
\<close>

datatype diff_status = No_differences | Differences | Trouble

fun diff :: "string option \<Rightarrow> string option \<Rightarrow> diff_status" where
  "diff (Some a) (Some b) = (if a = b then No_differences else Differences)"
| "diff _ _ = Trouble"

fun diff_prints :: "diff_status \<Rightarrow> bool" where
  "diff_prints Differences = True"
| "diff_prints No_differences = False"
| "diff_prints Trouble = False"

text \<open>\<^verbatim>\<open>cp\<close> of a missing source fails and leaves the target as it is.\<close>

definition cp :: "string option \<Rightarrow> string option \<Rightarrow> string option" where
  "cp source target = (case source of None \<Rightarrow> target | Some body \<Rightarrow> Some body)"

subsection \<open>The pipeline \<^verbatim>\<open>cat $CONF.bk | sed ... > $CONF.new\<close>\<close>

text \<open>One run of a shell command of an \<^verbatim>\<open>e\<close> command: what it does to the files and
  what it writes to its standard output.\<close>

fun exec :: "shell_cmd \<Rightarrow> files \<Rightarrow> files \<times> string" where
  "exec Rm_bk s = (s\<lparr>conf_bk := None\<rparr>, [])"
| "exec Rm_new s = (s\<lparr>conf_new := None\<rparr>, [])"
| "exec Cat_conf s = (s, cat (conf s))"

text \<open>
  The cycles of a script with an \<^verbatim>\<open>e\<close> command, one for each line of the input: the
  output of the shell command goes to sed's output as it is, then the line follows. An
  empty last piece is no line and has no cycle.
\<close>

fun sed_cycles :: "shell_cmd \<Rightarrow> string \<Rightarrow> string list \<Rightarrow> files \<Rightarrow> files \<times> string" where
  "sed_cycles c r [] s = (s, [])"
| "sed_cycles c r [l] s =
     (if l = [] then (s, [])
      else (case exec c s of (s', out) \<Rightarrow> (s', out @ sub_first r l)))"
| "sed_cycles c r (l # ls) s =
     (case exec c s of (s', out) \<Rightarrow>
        (case sed_cycles c r ls s' of (s'', rest) \<Rightarrow>
           (s'', out @ sub_first r l @ newline # rest)))"

text \<open>
  The shell creates or truncates \<^verbatim>\<open>$CONF.new\<close> for the redirection before sed starts,
  and \<^verbatim>\<open>cat\<close> has the backup open by the time sed runs its first cycle. What sed
  writes reaches the file unless a shell command has removed it meanwhile. A script
  that is \<open>Unmodelled\<close> is given the behaviour of a rejected one; nothing below is
  stated about a run with such an address but what holds of every filter.
\<close>

definition sed_pipeline :: "string \<Rightarrow> files \<Rightarrow> files" where
  "sed_pipeline A s =
     (let input = cat (conf_bk s);
          s0 = s\<lparr>conf_new := Some []\<rparr>
      in case sed_script A of
           Subst items (Some c) \<Rightarrow>
             (case sed_cycles c (expand items) (split_lines input) s0 of
                (s', out) \<Rightarrow> if conf_new s' = None then s' else s'\<lparr>conf_new := Some out\<rparr>)
         | _ \<Rightarrow> s0\<lparr>conf_new := Some (sed_output A input)\<rparr>)"

subsection \<open>One run of the cell\<close>

datatype cmd = Wget | Sed | Diff | Echo | Cp

record outcome =
  fs :: files
  stdout :: "string list"
  trace :: "cmd list"

definition configure :: "string \<Rightarrow> string option \<Rightarrow> files \<Rightarrow> outcome" where
  "configure A remote s =
     (let fetch = (conf_bk s = None);
          s1 = (if fetch then s\<lparr>conf_bk := Some (wget remote)\<rparr> else s);
          s2 = sed_pipeline A s1;
          changed = diff_prints (diff (conf_new s2) (conf s2));
          s3 = s2\<lparr>conf := cp (conf_new s2) (conf s2)\<rparr>
      in \<lparr>fs = s3,
          stdout = (if changed then [restart_msg] else []),
          trace = (if fetch then [Wget] else []) @ [Sed, Diff]
                  @ (if changed then [Echo] else []) @ [Cp]\<rparr>)"


definition fresh_host :: files where
  "fresh_host = \<lparr>conf_bk = None, conf_new = None, conf = None\<rparr>"

text \<open>
  An address by which sed is a filter: the script is the lone \<^verbatim>\<open>s\<close> command, or sed
  rejects it and writes nothing. Such an address carries no further script text after
  an unquoted \<^verbatim>\<open>/\<close> and none of GNU sed's own escapes.
\<close>

definition filter_address :: "string \<Rightarrow> bool" where
  "filter_address A =
     (case sed_script A of
        Rejected \<Rightarrow> True
      | Subst items c \<Rightarrow> c = None
      | Unmodelled \<Rightarrow> False)"

subsection \<open>Vocabulary for the substitution\<close>

text \<open>An address that sed reads as itself: no delimiter, no \<^verbatim>\<open>&\<close>, no backslash, no
  line break.\<close>

definition literal_address :: "string \<Rightarrow> bool" where
  "literal_address A =
     list_all (\<lambda>c. c \<noteq> CHR ''/'' \<and> c \<noteq> CHR ''&'' \<and> c \<noteq> backslash \<and> c \<noteq> newline) A"

text \<open>The number of positions of a text at which the placeholder occurs.\<close>

fun occurrences :: "string \<Rightarrow> nat" where
  "occurrences [] = 0"
| "occurrences (c # cs) = (if prefix placeholder (c # cs) then 1 else 0) + occurrences cs"

text \<open>
  The substitution as the specification words it, to compare the cell with: every
  literal occurrence of the placeholder is replaced, from left to right, wherever it
  stands.
\<close>

fun replace_all :: "string \<Rightarrow> string \<Rightarrow> string" where
  "replace_all r [] = []"
| "replace_all r (c # cs) =
     (if prefix placeholder (c # cs) then r @ replace_all r (drop (length placeholder - 1) cs)
      else c # replace_all r cs)"

section \<open>Credential Resolver: the Python cells\<close>

text \<open>
  \<^verbatim>\<open>
  params=['/SNOWFLAKE/URL','/SNOWFLAKE/ACCOUNT_ID'
          ,'/SNOWFLAKE/USER_ID','/SNOWFLAKE/PASSWORD'
          ,'/SNOWFLAKE/DATABASE','/SNOWFLAKE/SCHEMA'
          ,'/SNOWFLAKE/WAREHOUSE','/SNOWFLAKE/BUCKET'
          ,'/SNOWFLAKE/PREFIX']

  def get_credentials(params):
     ssm = boto3.client('ssm',region)
     response = ssm.get_parameters(
        Names=params,
        WithDecryption=True
     )
     #Build dict of credentials
     param_values={k['Name']:k['Value'] for k in  response['Parameters']}
     return param_values
  \<close>
\<close>

definition params :: "string list" where
  "params = [''/SNOWFLAKE/URL'', ''/SNOWFLAKE/ACCOUNT_ID'',
             ''/SNOWFLAKE/USER_ID'', ''/SNOWFLAKE/PASSWORD'',
             ''/SNOWFLAKE/DATABASE'', ''/SNOWFLAKE/SCHEMA'',
             ''/SNOWFLAKE/WAREHOUSE'', ''/SNOWFLAKE/BUCKET'',
             ''/SNOWFLAKE/PREFIX'']"

text \<open>The parameter store of the region: the names that are found and authorised, each
  with its decrypted value.\<close>

type_synonym store = "string \<rightharpoonup> string"

record parameter =
  Name :: string
  Value :: string

record response =
  Parameters :: "parameter list"

text \<open>
  Modelled from the spec: the parameter store service behind \<^verbatim>\<open>ssm.get_parameters\<close>, which
  is not part of the repository. Section 6: "a request carrying a list of parameter
  names and a decryption flag; a response carrying a list of (name, value) pairs for
  whichever names were found and authorized". The request is answered in one batch and
  raises nothing for a name it does not find.
\<close>

definition ssm_get_parameters :: "store \<Rightarrow> string list \<Rightarrow> response" where
  "ssm_get_parameters st Names =
     \<lparr>Parameters =
        List.map_filter (\<lambda>n. map_option (\<lambda>v. \<lparr>Name = n, Value = v\<rparr>) (st n)) Names\<rparr>"

text \<open>The dict comprehension goes through the response in order; a later record with
  the same name overwrites an earlier one.\<close>

definition get_credentials :: "store \<Rightarrow> string list \<Rightarrow> (string \<rightharpoonup> string)" where
  "get_credentials st ps =
     (let response = ssm_get_parameters st ps
      in fold (\<lambda>k param_values. param_values(Name k \<mapsto> Value k))
           (Parameters response) Map.empty)"

text \<open>
  \<^verbatim>\<open>
  sfOptions = {
    "sfURL" : param_values['/SNOWFLAKE/URL'],
    "sfAccount" : param_values['/SNOWFLAKE/ACCOUNT_ID'],
    "sfUser" : param_values['/SNOWFLAKE/USER_ID'],
    "sfPassword" : param_values['/SNOWFLAKE/PASSWORD'],
    "sfDatabase" : param_values['/SNOWFLAKE/DATABASE'],
    "sfSchema" : param_values['/SNOWFLAKE/SCHEMA'],
    "sfWarehouse" : param_values['/SNOWFLAKE/WAREHOUSE'],
  }
  \<close>
  Python evaluates the entries of the display from top to bottom; a subscript with a
  key the dict lacks raises \<^verbatim>\<open>KeyError\<close> with that key, and nothing is bound.
\<close>

datatype error = KeyError string

definition getitem ::
  "(string \<rightharpoonup> string) \<Rightarrow> string \<Rightarrow> (string \<Rightarrow> error + 'a) \<Rightarrow> error + 'a" where
  "getitem param_values key continue =
     (case param_values key of None \<Rightarrow> Inl (KeyError key) | Some v \<Rightarrow> continue v)"

definition sfOptions :: "(string \<rightharpoonup> string) \<Rightarrow> error + (string \<times> string) list" where
  "sfOptions param_values =
     getitem param_values ''/SNOWFLAKE/URL'' (\<lambda>url.
     getitem param_values ''/SNOWFLAKE/ACCOUNT_ID'' (\<lambda>account.
     getitem param_values ''/SNOWFLAKE/USER_ID'' (\<lambda>user.
     getitem param_values ''/SNOWFLAKE/PASSWORD'' (\<lambda>password.
     getitem param_values ''/SNOWFLAKE/DATABASE'' (\<lambda>database.
     getitem param_values ''/SNOWFLAKE/SCHEMA'' (\<lambda>schema.
     getitem param_values ''/SNOWFLAKE/WAREHOUSE'' (\<lambda>warehouse.
       Inr [(''sfURL'', url),
            (''sfAccount'', account),
            (''sfUser'', user),
            (''sfPassword'', password),
            (''sfDatabase'', database),
            (''sfSchema'', schema),
            (''sfWarehouse'', warehouse)])))))))"

text \<open>The seven names that \<open>sfOptions\<close> reads, in the order in which it reads them.\<close>

definition option_names :: "string list" where
  "option_names = [''/SNOWFLAKE/URL'', ''/SNOWFLAKE/ACCOUNT_ID'',
                   ''/SNOWFLAKE/USER_ID'', ''/SNOWFLAKE/PASSWORD'',
                   ''/SNOWFLAKE/DATABASE'', ''/SNOWFLAKE/SCHEMA'',
                   ''/SNOWFLAKE/WAREHOUSE'']"

text \<open>A store that has every name of \<open>params\<close> but one.\<close>

definition store_without :: "string \<Rightarrow> store" where
  "store_without missing =
     (\<lambda>n. if n \<in> set params \<and> n \<noteq> missing then Some (''value of '' @ n) else None)"

section \<open>Properties of the Endpoint Configurator\<close>

subsection \<open>What one run does to the files, the output and the trace\<close>

lemma diff_prints_iff: "diff_prints d = (d = Differences)"
  by (cases d) simp_all

lemma exec_conf: "conf (fst (exec c s)) = conf s"
  by (cases c) simp_all

lemma sed_cycles_conf: "conf (fst (sed_cycles c r ls s)) = conf s"
proof (induction c r ls s rule: sed_cycles.induct)
  case (1 c r s)
  then show ?case by simp
next
  case (2 c r l s)
  then show ?case using exec_conf [of c s] by (auto split: prod.splits)
next
  case (3 c r l v va s)
  obtain s' out where e: "exec c s = (s', out)" by (cases "exec c s")
  with exec_conf [of c s] have "conf s' = conf s" by simp
  with 3 [OF e [symmetric]] e show ?case by (auto split: prod.splits)
qed

lemma sed_pipeline_conf: "conf (sed_pipeline A s) = conf s"
proof (cases "sed_script A")
  case (Subst items c)
  show ?thesis
  proof (cases c)
    case None
    with Subst show ?thesis by (simp add: sed_pipeline_def)
  next
    case (Some e)
    obtain s' out where r: "sed_cycles e (expand items) (split_lines (cat (conf_bk s)))
        (s\<lparr>conf_new := Some []\<rparr>) = (s', out)"
      by (cases "sed_cycles e (expand items) (split_lines (cat (conf_bk s)))
        (s\<lparr>conf_new := Some []\<rparr>)")
    with sed_cycles_conf [of e "expand items" "split_lines (cat (conf_bk s))"
        "s\<lparr>conf_new := Some []\<rparr>"]
    have "conf s' = conf s" by simp
    with Subst Some r show ?thesis by (simp add: sed_pipeline_def)
  qed
qed (simp_all add: sed_pipeline_def)

lemma sed_pipeline_filter:
  "filter_address A \<Longrightarrow>
     sed_pipeline A s = s\<lparr>conf_new := Some (sed_output A (cat (conf_bk s)))\<rparr>"
  by (cases "sed_script A") (auto simp: sed_pipeline_def filter_address_def)

lemma configure_stdout:
  "stdout (configure A remote s) =
     (if diff (conf_new (fs (configure A remote s))) (conf s) = Differences
      then [restart_msg] else [])"
  by (cases "conf_bk s")
     (simp_all add: configure_def Let_def diff_prints_iff sed_pipeline_conf)

lemma configure_trace:
  "trace (configure A remote s) =
     (if conf_bk s = None then [Wget] else []) @ [Sed, Diff]
     @ (if diff (conf_new (fs (configure A remote s))) (conf s) = Differences
        then [Echo] else [])
     @ [Cp]"
  by (cases "conf_bk s")
     (simp_all add: configure_def Let_def diff_prints_iff sed_pipeline_conf)


text \<open>With an address by which sed is a filter, a run leaves the backup it found or
  fetched, the candidate that sed wrote, and that candidate as the active file.\<close>

lemma configure_bk:
  "filter_address A \<Longrightarrow>
     conf_bk (fs (configure A remote s))
       = Some (case conf_bk s of None \<Rightarrow> wget remote | Some b \<Rightarrow> b)"
  by (cases "conf_bk s") (simp_all add: configure_def Let_def sed_pipeline_filter)

lemma configure_new:
  "filter_address A \<Longrightarrow>
     conf_new (fs (configure A remote s))
       = Some (sed_output A (cat (conf_bk (fs (configure A remote s)))))"
  by (cases "conf_bk s") (simp_all add: configure_def Let_def sed_pipeline_filter)

lemma configure_conf:
  "filter_address A \<Longrightarrow>
     conf (fs (configure A remote s)) = conf_new (fs (configure A remote s))"
  by (simp add: configure_def Let_def sed_pipeline_filter cp_def)


lemma filter_address_example: "filter_address ''ip-172-31-58-190.ec2.internal''"
  by (simp add: filter_address_def sed_script_def newline_def backslash_def)

lemma sed_output_example:
  "sed_output ''ip-172-31-58-190.ec2.internal'' ''url: http://localhost:8998''
     = ''url: http://ip-172-31-58-190.ec2.internal:8998''"
  by (simp add: sed_output_def sed_script_def newline_def backslash_def placeholder_def)

subsection \<open>Sequences of runs\<close>





subsection \<open>Lines and the substitution\<close>

lemma sed_rhs_literal: "literal_address A \<Longrightarrow> sed_rhs A = Rhs (map Lit A) None"
  by (induction A rule: sed_rhs.induct) (auto simp: literal_address_def)

lemma sed_script_literal: "literal_address A \<Longrightarrow> sed_script A = Subst (map Lit A) None"
  by (simp add: sed_script_def sed_rhs_literal)

lemma filter_address_literal: "literal_address A \<Longrightarrow> filter_address A"
  by (simp add: filter_address_def sed_script_literal)

lemma expand_Lit: "expand (map Lit A) = A"
  by (induction A) simp_all

lemma sed_output_literal:
  "literal_address A \<Longrightarrow> sed_output A b = join_lines (map (sub_first A) (split_lines b))"
  by (simp add: sed_output_def sed_script_literal expand_Lit)

lemma split_lines_not_Nil: "split_lines s \<noteq> []"
  by (induction s) (auto split: list.splits)

lemma split_lines_append:
  "newline \<notin> set w \<Longrightarrow> split_lines (w @ s) = (w @ hd (split_lines s)) # tl (split_lines s)"
proof (induction w)
  case Nil
  then show ?case using split_lines_not_Nil [of s] by simp
next
  case (Cons c w)
  then show ?case by (auto split: list.splits)
qed

lemma split_lines_single: "newline \<notin> set w \<Longrightarrow> split_lines w = [w]"
  using split_lines_append [of w "[]"] by simp

lemma split_lines_break:
  "newline \<notin> set w \<Longrightarrow> split_lines (w @ newline # s) = w # split_lines s"
  using split_lines_append [of w "newline # s"] by simp

lemma join_lines_Cons: "ls \<noteq> [] \<Longrightarrow> join_lines (l # ls) = l @ newline # join_lines ls"
  by (cases ls) simp_all

lemma join_lines_append_hd: "join_lines ((a @ x) # ls) = a @ join_lines (x # ls)"
  by (cases ls) simp_all

lemma hd_split_lines_prefix: "prefix (hd (split_lines s)) s"
  by (induction s) (auto split: list.splits)

lemma prefix_within:
  "length p \<le> length xs \<Longrightarrow> prefix p (xs @ ys) \<longleftrightarrow> prefix p xs"
  by (auto simp: prefix_append)

lemma placeholder_split: "placeholder = butlast placeholder @ [last placeholder]"
  by (simp add: placeholder_def)

lemma newline_notin_placeholder: "newline \<notin> set placeholder"
  by (simp add: placeholder_def newline_def)

lemma drop_placeholder_Cons:
  "drop (length placeholder) (c # l) = drop (length placeholder - 1) l"
  by (simp add: placeholder_def)

lemma sub_first_first:
  "occurrences (pre @ butlast placeholder) = 0 \<Longrightarrow>
     sub_first r (pre @ placeholder @ post) = pre @ r @ post"
proof (induction pre)
  case Nil
  then show ?case by (simp add: placeholder_def)
next
  case (Cons c pre)
  from Cons.prems have np: "\<not> prefix placeholder (c # pre @ butlast placeholder)"
    and occ: "occurrences (pre @ butlast placeholder) = 0"
    by (auto split: if_splits)
  have "c # pre @ placeholder @ post
          = (c # pre @ butlast placeholder) @ (last placeholder # post)"
    using placeholder_split by simp
  moreover have "length placeholder \<le> length (c # pre @ butlast placeholder)"
    by simp
  ultimately have "\<not> prefix placeholder (c # pre @ placeholder @ post)"
    using np prefix_within by metis
  with Cons.IH [OF occ] show ?case by simp
qed

lemma occurrences_drop: "occurrences (drop n l) \<le> occurrences l"
proof (induction l arbitrary: n)
  case Nil
  then show ?case by simp
next
  case (Cons c l)
  show ?case
  proof (cases n)
    case 0
    then show ?thesis by simp
  next
    case (Suc m)
    with Cons.IH [of m] show ?thesis by simp
  qed
qed

lemma replace_all_none: "occurrences l = 0 \<Longrightarrow> replace_all r l = l"
  by (induction l) (auto split: if_splits)

lemma sub_first_replace_all: "occurrences l \<le> 1 \<Longrightarrow> sub_first r l = replace_all r l"
proof (induction l)
  case Nil
  then show ?case by simp
next
  case (Cons c l)
  show ?case
  proof (cases "prefix placeholder (c # l)")
    case True
    with Cons.prems have "occurrences l = 0" by simp
    with occurrences_drop [of "length placeholder - 1" l]
    have "occurrences (drop (length placeholder - 1) l) = 0" by simp
    then have "replace_all r (drop (length placeholder - 1) l)
                 = drop (length placeholder - 1) l"
      by (rule replace_all_none)
    with True show ?thesis by (simp add: drop_placeholder_Cons)
  next
    case False
    with Cons show ?thesis by simp
  qed
qed

text \<open>The placeholder holds no line break, so replacing every occurrence in a text is
  replacing every occurrence in each of its lines.\<close>

lemma replace_all_lines:
  "replace_all r s = join_lines (map (replace_all r) (split_lines s))"
proof (induction r s rule: replace_all.induct)
  case (1 r)
  then show ?case by simp
next
  case (2 r c cs)
  show ?case
  proof (cases "prefix placeholder (c # cs)")
    case True
    then obtain rest where rest: "c # cs = placeholder @ rest"
      by (auto simp: prefix_def)
    then have "drop (length placeholder) (c # cs) = rest"
      by simp
    then have d: "drop (length placeholder - 1) cs = rest"
      by (simp only: drop_placeholder_Cons)
    from 2(1) [OF True] d
    have IH: "replace_all r rest = join_lines (map (replace_all r) (split_lines rest))"
      by simp
    have "split_lines (c # cs) = (placeholder @ hd (split_lines rest)) # tl (split_lines rest)"
      unfolding rest by (rule split_lines_append) (rule newline_notin_placeholder)
    moreover have "replace_all r (placeholder @ x) = r @ replace_all r x" for x
      by (simp add: placeholder_def)
    ultimately have "join_lines (map (replace_all r) (split_lines (c # cs)))
        = r @ join_lines (replace_all r (hd (split_lines rest))
                          # map (replace_all r) (tl (split_lines rest)))"
      by (simp add: join_lines_append_hd)
    also have "replace_all r (hd (split_lines rest)) # map (replace_all r) (tl (split_lines rest))
        = map (replace_all r) (split_lines rest)"
      using split_lines_not_Nil [of rest] by (cases "split_lines rest") simp_all
    finally show ?thesis using True IH d by simp
  next
    case False
    note IH = 2(2) [OF False]
    show ?thesis
    proof (cases "c = newline")
      case True
      with False IH split_lines_not_Nil [of cs] show ?thesis
        by (simp add: join_lines_Cons)
    next
      case nl: False
      obtain l ls where spl: "split_lines cs = l # ls"
        using split_lines_not_Nil [of cs] by (cases "split_lines cs") auto
      have "prefix (c # l) (c # cs)"
        using hd_split_lines_prefix [of cs] spl by simp
      with False have "\<not> prefix placeholder (c # l)"
        using prefix_order.order_trans by blast
      then have "replace_all r (c # l) = c # replace_all r l" by simp
      with False nl IH spl show ?thesis
        using join_lines_append_hd [of "[c]"] by simp
    qed
  qed
qed

lemma sed_output_single_line:
  assumes "literal_address A" "occurrences (pre @ butlast placeholder) = 0"
    "newline \<notin> set pre" "newline \<notin> set post"
  shows "sed_output A (pre @ placeholder @ post) = pre @ A @ post"
proof -
  have "newline \<notin> set (pre @ placeholder @ post)"
    using assms(3,4) newline_notin_placeholder by simp
  then have "split_lines (pre @ placeholder @ post) = [pre @ placeholder @ post]"
    by (rule split_lines_single)
  with assms(1,2) show ?thesis
    by (simp add: sed_output_literal sub_first_first)
qed

lemma sed_output_break:
  assumes "literal_address A" "newline \<notin> set l"
  shows "sed_output A (l @ newline # rest) = sed_output A l @ newline # sed_output A rest"
  using assms split_lines_not_Nil [of rest]
  by (simp add: sed_output_literal split_lines_break split_lines_single join_lines_Cons)

subsection \<open>The claims about the Configurator\<close>

text \<open>
  C2, as stated: for every target address a second run with the same address changes
  nothing and prints nothing. The cell does not do that for an address that carries a
  sed command: with \<^verbatim>\<open>x/;e cat /home/ec2-user/.sparkmagic/config.json;#\<close> sed copies the
  active file into the candidate in front of every line, so on the baseline
  \<^verbatim>\<open>localhost\<close> the first run installs \<^verbatim>\<open>x\<close> and the second run builds \<^verbatim>\<open>xx\<close>, prints the
  advice and installs that.
\<close>

theorem second_run_counterexample:
  "conf (fs (configure ''x/;e cat /home/ec2-user/.sparkmagic/config.json;#'' None
      \<lparr>conf_bk = Some ''localhost'', conf_new = None, conf = None\<rparr>)) = Some ''x''
   \<and> conf (fs (configure ''x/;e cat /home/ec2-user/.sparkmagic/config.json;#'' None
        (fs (configure ''x/;e cat /home/ec2-user/.sparkmagic/config.json;#'' None
          \<lparr>conf_bk = Some ''localhost'', conf_new = None, conf = None\<rparr>)))) = Some ''xx''
   \<and> stdout (configure ''x/;e cat /home/ec2-user/.sparkmagic/config.json;#'' None
        (fs (configure ''x/;e cat /home/ec2-user/.sparkmagic/config.json;#'' None
          \<lparr>conf_bk = Some ''localhost'', conf_new = None, conf = None\<rparr>))) = [restart_msg]"
proof -
  let ?A = "''x/;e cat /home/ec2-user/.sparkmagic/config.json;#''"
  have sc: "sed_script ?A = Subst [Lit CHR ''x''] (Some Cat_conf)"
    by (simp add: sed_script_def e_command_def CONF_def newline_def backslash_def)
  have r1: "fs (configure ?A None \<lparr>conf_bk = Some ''localhost'', conf_new = None, conf = None\<rparr>)
      = \<lparr>conf_bk = Some ''localhost'', conf_new = Some ''x'', conf = Some ''x''\<rparr>"
    by (simp add: configure_def sed_pipeline_def sc cat_def cp_def newline_def placeholder_def)
  have r2: "configure ?A None
        \<lparr>conf_bk = Some ''localhost'', conf_new = Some ''x'', conf = Some ''x''\<rparr>
      = \<lparr>fs = \<lparr>conf_bk = Some ''localhost'', conf_new = Some ''xx'', conf = Some ''xx''\<rparr>,
         stdout = [restart_msg], trace = [Sed, Diff, Echo, Cp]\<rparr>"
    by (simp add: configure_def sed_pipeline_def sc cat_def cp_def newline_def placeholder_def)
  show ?thesis
    unfolding r1 r2 by simp
qed

text \<open>
  C2, amended. For every target address by which sed is a filter (the script is the
  lone \<^verbatim>\<open>s\<close> command or is rejected), a second run with the same address leaves the
  three files, the active configuration among them, exactly as the first run left them,
  and prints no restart advice; whatever the files were before the first run and
  whatever the remote template answers in either run.
\<close>

theorem configure_twice_idempotent:
  "filter_address A \<Longrightarrow>
     fs (configure A remote2 (fs (configure A remote1 s))) = fs (configure A remote1 s)
     \<and> conf (fs (configure A remote2 (fs (configure A remote1 s))))
         = conf (fs (configure A remote1 s))
     \<and> stdout (configure A remote2 (fs (configure A remote1 s))) = []
     \<and> Echo \<notin> set (trace (configure A remote2 (fs (configure A remote1 s))))"
  by (cases "conf_bk s")
     (simp_all add: configure_def Let_def cat_def cp_def sed_pipeline_filter)

theorem configure_twice_idempotent_witness:
  "filter_address ''ip-172-31-58-190.ec2.internal''
   \<and> stdout (configure ''ip-172-31-58-190.ec2.internal'' None
      (fs (configure ''ip-172-31-58-190.ec2.internal''
            (Some ''url: http://localhost:8998'') fresh_host))) = []
   \<and> conf (fs (configure ''ip-172-31-58-190.ec2.internal'' None
      (fs (configure ''ip-172-31-58-190.ec2.internal''
            (Some ''url: http://localhost:8998'') fresh_host))))
     = Some ''url: http://ip-172-31-58-190.ec2.internal:8998''"
proof -
  note f = filter_address_example
  have "conf (fs (configure ''ip-172-31-58-190.ec2.internal''
            (Some ''url: http://localhost:8998'') fresh_host))
     = Some ''url: http://ip-172-31-58-190.ec2.internal:8998''"
    by (simp add: configure_conf configure_new configure_bk f fresh_host_def wget_def cat_def
        sed_output_example)
  with configure_twice_idempotent [OF f, of None
      "Some ''url: http://localhost:8998''" fresh_host] f
  show ?thesis by simp
qed



text \<open>
  C6, as stated: after every run the active file holds the candidate built in that
  run. The cell does not do that for an address that carries a sed command: with
  \<^verbatim>\<open>x/;e rm -f /home/ec2-user/.sparkmagic/config.json.new;#\<close> sed removes the candidate
  while it writes it, \<^verbatim>\<open>cp\<close> runs and fails, and the active file keeps its old content.
\<close>

theorem candidate_removed_counterexample:
  "conf (fs (configure ''x/;e rm -f /home/ec2-user/.sparkmagic/config.json.new;#'' None
      \<lparr>conf_bk = Some ''url: localhost'', conf_new = None, conf = Some ''old''\<rparr>)) = Some ''old''
   \<and> conf_new (fs (configure ''x/;e rm -f /home/ec2-user/.sparkmagic/config.json.new;#'' None
      \<lparr>conf_bk = Some ''url: localhost'', conf_new = None, conf = Some ''old''\<rparr>)) = None
   \<and> last (trace (configure ''x/;e rm -f /home/ec2-user/.sparkmagic/config.json.new;#'' None
      \<lparr>conf_bk = Some ''url: localhost'', conf_new = None, conf = Some ''old''\<rparr>)) = Cp"
proof -
  let ?A = "''x/;e rm -f /home/ec2-user/.sparkmagic/config.json.new;#''"
  have sc: "sed_script ?A = Subst [Lit CHR ''x''] (Some Rm_new)"
    by (simp add: sed_script_def e_command_def CONF_def newline_def backslash_def)
  have r: "configure ?A None
        \<lparr>conf_bk = Some ''url: localhost'', conf_new = None, conf = Some ''old''\<rparr>
      = \<lparr>fs = \<lparr>conf_bk = Some ''url: localhost'', conf_new = None, conf = Some ''old''\<rparr>,
         stdout = [], trace = [Sed, Diff, Cp]\<rparr>"
    by (simp add: configure_def sed_pipeline_def sc cat_def cp_def newline_def placeholder_def)
  show ?thesis
    unfolding r by simp
qed

text \<open>
  C6, amended. After every run with a target address by which sed is a filter, the
  active file holds the candidate built in that run: \<^verbatim>\<open>cp\<close> is the last command of the
  run and runs once, also when \<^verbatim>\<open>diff\<close> found no difference, where nothing is printed.
\<close>

theorem candidate_always_installed:
  "filter_address A \<Longrightarrow>
     conf (fs (configure A remote s))
       = Some (sed_output A (cat (conf_bk (fs (configure A remote s)))))
     \<and> conf (fs (configure A remote s)) = conf_new (fs (configure A remote s))
     \<and> last (trace (configure A remote s)) = Cp
     \<and> count_list (trace (configure A remote s)) Cp = 1
     \<and> (diff (conf_new (fs (configure A remote s))) (conf s) = No_differences \<longrightarrow>
          stdout (configure A remote s) = [] \<and> Cp \<in> set (trace (configure A remote s)))"
  by (simp add: configure_conf configure_new configure_stdout configure_trace)

theorem candidate_always_installed_witness:
  "filter_address ''emr''
   \<and> diff (conf_new (fs (configure ''emr'' None
          \<lparr>conf_bk = Some ''localhost'', conf_new = None, conf = Some ''emr''\<rparr>)))
        (conf \<lparr>conf_bk = Some ''localhost'', conf_new = None, conf = Some ''emr''\<rparr>)
     = No_differences
   \<and> stdout (configure ''emr'' None
        \<lparr>conf_bk = Some ''localhost'', conf_new = None, conf = Some ''emr''\<rparr>) = []
   \<and> Cp \<in> set (trace (configure ''emr'' None
        \<lparr>conf_bk = Some ''localhost'', conf_new = None, conf = Some ''emr''\<rparr>))
   \<and> conf (fs (configure ''emr'' None
        \<lparr>conf_bk = Some ''localhost'', conf_new = None, conf = Some ''emr''\<rparr>)) = Some ''emr''"
proof -
  let ?s = "\<lparr>conf_bk = Some ''localhost'', conf_new = None, conf = Some ''emr''\<rparr>"
  have f: "filter_address ''emr''"
    by (simp add: filter_address_def sed_script_def newline_def backslash_def)
  have "sed_output ''emr'' ''localhost'' = ''emr''"
    by (simp add: sed_output_def sed_script_def newline_def backslash_def placeholder_def)
  with f have n: "conf_new (fs (configure ''emr'' None ?s)) = Some ''emr''"
    by (simp add: configure_new configure_bk cat_def)
  then have d: "diff (conf_new (fs (configure ''emr'' None ?s))) (conf ?s) = No_differences"
    by simp
  from candidate_always_installed [OF f, of None ?s] d
  have "conf (fs (configure ''emr'' None ?s)) = conf_new (fs (configure ''emr'' None ?s))
      \<and> stdout (configure ''emr'' None ?s) = []
      \<and> Cp \<in> set (trace (configure ''emr'' None ?s))"
    by blast
  with f d n show ?thesis by simp
qed




text \<open>
  C10, as stated: on a run that finds no active file the candidate is still installed
  as the new active file. The cell does not do that for an address that carries a sed
  command: with \<^verbatim>\<open>x/;e rm -f /home/ec2-user/.sparkmagic/config.json.new;#\<close> on a fresh
  host sed removes the candidate, \<^verbatim>\<open>cp\<close> fails, and there is no active file after the
  run.
\<close>

theorem first_run_not_installed_counterexample:
  "conf fresh_host = None
   \<and> stdout (configure ''x/;e rm -f /home/ec2-user/.sparkmagic/config.json.new;#'' (Some ''url: localhost'') fresh_host) = []
   \<and> conf_new (fs (configure ''x/;e rm -f /home/ec2-user/.sparkmagic/config.json.new;#'' (Some ''url: localhost'') fresh_host)) = None
   \<and> conf (fs (configure ''x/;e rm -f /home/ec2-user/.sparkmagic/config.json.new;#'' (Some ''url: localhost'') fresh_host)) = None"
proof -
  let ?A = "''x/;e rm -f /home/ec2-user/.sparkmagic/config.json.new;#''"
  have sc: "sed_script ?A = Subst [Lit CHR ''x''] (Some Rm_new)"
    by (simp add: sed_script_def e_command_def CONF_def newline_def backslash_def)
  have r: "configure ?A (Some ''url: localhost'') fresh_host
      = \<lparr>fs = \<lparr>conf_bk = Some ''url: localhost'', conf_new = None, conf = None\<rparr>,
         stdout = [], trace = [Wget, Sed, Diff, Cp]\<rparr>"
    by (simp add: configure_def sed_pipeline_def sc fresh_host_def wget_def cat_def cp_def
        newline_def placeholder_def)
  show ?thesis
    unfolding r by (simp add: fresh_host_def)
qed

text \<open>
  C10, amended. On a run that finds no active file, with a target address by which sed
  is a filter, \<^verbatim>\<open>diff\<close> ends in trouble with nothing on its standard output, so no
  restart advice is printed; the candidate is installed as the active file all the
  same.
\<close>

theorem first_run_prints_nothing:
  "conf s = None \<Longrightarrow> filter_address A \<Longrightarrow>
     stdout (configure A remote s) = []
     \<and> Echo \<notin> set (trace (configure A remote s))
     \<and> diff (conf_new (fs (configure A remote s))) (conf s) = Trouble
     \<and> conf (fs (configure A remote s))
         = Some (sed_output A (cat (conf_bk (fs (configure A remote s)))))"
  by (simp add: configure_stdout configure_trace configure_conf configure_new)

theorem first_run_prints_nothing_witness:
  "conf fresh_host = None
   \<and> filter_address ''ip-172-31-58-190.ec2.internal''
   \<and> stdout (configure ''ip-172-31-58-190.ec2.internal''
        (Some ''url: http://localhost:8998'') fresh_host) = []
   \<and> conf (fs (configure ''ip-172-31-58-190.ec2.internal''
        (Some ''url: http://localhost:8998'') fresh_host))
       = Some ''url: http://ip-172-31-58-190.ec2.internal:8998''"
proof -
  note f = filter_address_example
  have h: "conf fresh_host = None" by (simp add: fresh_host_def)
  from first_run_prints_nothing [OF h f, of "Some ''url: http://localhost:8998''"]
    h f sed_output_example
  show ?thesis by (simp add: configure_bk fresh_host_def wget_def cat_def)
qed

text \<open>
  C1, as stated: every literal occurrence of the placeholder is replaced, also when a
  line holds more than one. The cell does not do that: on the one-line baseline
  \<^verbatim>\<open>localhost localhost\<close> it replaces the first occurrence and keeps the second, where
  replacing every occurrence would leave none.
\<close>

theorem every_occurrence_counterexample:
  "sed_output ''emr'' ''localhost localhost'' = ''emr localhost''
   \<and> replace_all ''emr'' ''localhost localhost'' = ''emr emr''
   \<and> sed_output ''emr'' ''localhost localhost'' \<noteq> replace_all ''emr'' ''localhost localhost''"
  by (simp add: sed_output_def sed_script_def placeholder_def newline_def backslash_def)

text \<open>
  C1, amended. For every baseline and every target address that sed reads as itself,
  the substitution step replaces every literal occurrence of the placeholder provided
  that no line of the baseline holds more than one. On a line it replaces the first
  occurrence by the address and copies what stands before and after it, later
  occurrences included; and it treats each line on its own.
\<close>

theorem first_occurrence_per_line:
  assumes "literal_address A"
  shows "(list_all (\<lambda>l. occurrences l \<le> 1) (split_lines b) \<longrightarrow>
           sed_output A b = replace_all A b)
    \<and> (occurrences (pre @ butlast placeholder) = 0 \<and> newline \<notin> set (pre @ post) \<longrightarrow>
         sed_output A (pre @ placeholder @ post) = pre @ A @ post)
    \<and> (newline \<notin> set l \<longrightarrow>
         sed_output A (l @ newline # rest) = sed_output A l @ newline # sed_output A rest)"
proof (intro conjI impI)
  assume "list_all (\<lambda>l. occurrences l \<le> 1) (split_lines b)"
  then have eq: "map (sub_first A) (split_lines b) = map (replace_all A) (split_lines b)"
    by (simp add: list_all_iff sub_first_replace_all)
  have "sed_output A b = join_lines (map (sub_first A) (split_lines b))"
    using assms by (rule sed_output_literal)
  also have "\<dots> = join_lines (map (replace_all A) (split_lines b))"
    by (simp only: eq)
  also have "\<dots> = replace_all A b"
    by (rule replace_all_lines [symmetric])
  finally show "sed_output A b = replace_all A b" .
next
  assume "occurrences (pre @ butlast placeholder) = 0 \<and> newline \<notin> set (pre @ post)"
  with assms show "sed_output A (pre @ placeholder @ post) = pre @ A @ post"
    by (simp add: sed_output_single_line)
next
  assume "newline \<notin> set l"
  with assms
  show "sed_output A (l @ newline # rest) = sed_output A l @ newline # sed_output A rest"
    by (simp add: sed_output_break)
qed

theorem first_occurrence_per_line_witness:
  "literal_address ''emr''
   \<and> list_all (\<lambda>l. occurrences l \<le> 1) (split_lines (''a: localhost'' @ newline # ''b: localhost''))
   \<and> sed_output ''emr'' (''a: localhost'' @ newline # ''b: localhost'')
       = replace_all ''emr'' (''a: localhost'' @ newline # ''b: localhost'')
   \<and> occurrences (''a: '' @ butlast placeholder) = 0
   \<and> newline \<notin> set (''a: '' @ '', localhost'')
   \<and> sed_output ''emr'' (''a: '' @ placeholder @ '', localhost'')
       = ''a: '' @ ''emr'' @ '', localhost''
   \<and> newline \<notin> set ''a: localhost''
   \<and> sed_output ''emr'' (''a: localhost'' @ newline # ''b: localhost'')
       = sed_output ''emr'' ''a: localhost'' @ newline # sed_output ''emr'' ''b: localhost''"
proof -
  have h: "literal_address ''emr''"
    by (simp add: literal_address_def newline_def backslash_def)
  have p1: "list_all (\<lambda>l. occurrences l \<le> 1)
              (split_lines (''a: localhost'' @ newline # ''b: localhost''))"
    by (simp add: placeholder_def newline_def)
  have p2: "occurrences (''a: '' @ butlast placeholder) = 0
            \<and> newline \<notin> set (''a: '' @ '', localhost'')"
    by (simp add: placeholder_def newline_def)
  have p3: "newline \<notin> set ''a: localhost''"
    by (simp add: newline_def)
  note t = first_occurrence_per_line [OF h,
      of "''a: localhost'' @ newline # ''b: localhost''" "''a: ''" "'', localhost''"
         "''a: localhost''" "''b: localhost''"]
  from t p1 p2 p3 h show ?thesis by blast
qed

text \<open>
  C8, as stated: whatever the address, the substitution inserts it exactly as given.
  The cell does not: sed reads the \<^verbatim>\<open>/\<close> of the address \<^verbatim>\<open>a/b\<close> as the end of the
  replacement and rejects the script, so the candidate, and with it the active file,
  is empty, where the claim has \<^verbatim>\<open>url: a/b\<close>.
\<close>

theorem address_as_given_counterexample:
  "conf (fs (configure ''a/b'' None
      \<lparr>conf_bk = Some ''url: localhost'', conf_new = None, conf = None\<rparr>)) = Some []
   \<and> conf (fs (configure ''a/b'' None
      \<lparr>conf_bk = Some ''url: localhost'', conf_new = None, conf = None\<rparr>)) \<noteq> Some ''url: a/b''"
proof -
  have f: "filter_address ''a/b''"
    by (simp add: filter_address_def sed_script_def newline_def backslash_def)
  have "sed_output ''a/b'' ''url: localhost'' = []"
    by (simp add: sed_output_def sed_script_def newline_def backslash_def)
  with f show ?thesis
    by (simp add: configure_conf configure_new configure_bk cat_def)
qed

text \<open>
  C8, amended. For every target address that sed reads as itself (no \<^verbatim>\<open>/\<close>, no
  \<^verbatim>\<open>&\<close>, no backslash, no line break) the Configurator checks nothing and the
  substitution inserts the address exactly as given, whatever else it is: the active
  file after the run is the baseline with the first placeholder of each line replaced
  by that very string.
\<close>

theorem literal_address_inserted_as_given:
  assumes "literal_address A" "conf_bk s = Some b"
  shows "conf (fs (configure A remote s)) = Some (join_lines (map (sub_first A) (split_lines b)))
    \<and> (b = pre @ placeholder @ post \<and> occurrences (pre @ butlast placeholder) = 0
         \<and> newline \<notin> set (pre @ post) \<longrightarrow>
       conf (fs (configure A remote s)) = Some (pre @ A @ post))"
proof -
  from assms(1) have "filter_address A"
    by (rule filter_address_literal)
  with assms(2) have "conf (fs (configure A remote s)) = Some (sed_output A b)"
    by (simp add: configure_conf configure_new configure_bk cat_def)
  with assms(1) show ?thesis
    by (auto simp: sed_output_literal [symmetric] sed_output_single_line)
qed

theorem literal_address_inserted_as_given_witness:
  "literal_address ''not a host !!''
   \<and> conf_bk \<lparr>conf_bk = Some ''url: http://localhost:8998'', conf_new = None, conf = None\<rparr>
       = Some ''url: http://localhost:8998''
   \<and> ''url: http://localhost:8998'' = ''url: http://'' @ placeholder @ '':8998''
   \<and> occurrences (''url: http://'' @ butlast placeholder) = 0
   \<and> newline \<notin> set (''url: http://'' @ '':8998'')
   \<and> conf (fs (configure ''not a host !!'' None
        \<lparr>conf_bk = Some ''url: http://localhost:8998'', conf_new = None, conf = None\<rparr>))
       = Some ''url: http://not a host !!:8998''"
proof -
  let ?s = "\<lparr>conf_bk = Some ''url: http://localhost:8998'', conf_new = None, conf = None\<rparr>"
  have h1: "literal_address ''not a host !!''"
    by (simp add: literal_address_def newline_def backslash_def)
  have h2: "conf_bk ?s = Some ''url: http://localhost:8998''"
    by simp
  have p: "''url: http://localhost:8998'' = ''url: http://'' @ placeholder @ '':8998''
           \<and> occurrences (''url: http://'' @ butlast placeholder) = 0
           \<and> newline \<notin> set (''url: http://'' @ '':8998'')"
    by (simp add: placeholder_def newline_def)
  from literal_address_inserted_as_given [OF h1 h2, of None "''url: http://''" "'':8998''"] p
  have "conf (fs (configure ''not a host !!'' None ?s))
          = Some (''url: http://'' @ ''not a host !!'' @ '':8998'')"
    by blast
  with h1 h2 p show ?thesis by simp
qed

section \<open>Properties of the Credential Resolver\<close>

lemma fold_parameters:
  "fold (\<lambda>k param_values. param_values(Name k \<mapsto> Value k))
     (List.map_filter (\<lambda>n. map_option (\<lambda>v. \<lparr>Name = n, Value = v\<rparr>) (st n)) names) m n
   = (if n \<in> set names \<and> st n \<noteq> None then st n else m n)"
proof (induction names arbitrary: m)
  case Nil
  then show ?case by (simp add: List.map_filter_simps)
next
  case (Cons a names)
  then show ?case
    by (cases "st a") (auto simp: List.map_filter_simps)
qed

lemma get_credentials_lookup:
  "get_credentials st R n = (if n \<in> set R then st n else None)"
  by (simp add: get_credentials_def ssm_get_parameters_def fold_parameters)

lemma get_credentials_dom: "dom (get_credentials st R) = set R \<inter> dom st"
  by (auto simp: get_credentials_lookup dom_def)

lemma sfOptions_missing:
  assumes "\<exists>n\<in>set option_names. pv n = None"
  shows "\<exists>k. List.find (\<lambda>n. pv n = None) option_names = Some k
    \<and> sfOptions pv = Inl (KeyError k)"
  using assms
  by (auto simp: sfOptions_def getitem_def option_names_def split: option.splits)

lemma sfOptions_complete:
  assumes "pv ''/SNOWFLAKE/URL'' = Some url"
    "pv ''/SNOWFLAKE/ACCOUNT_ID'' = Some account"
    "pv ''/SNOWFLAKE/USER_ID'' = Some user"
    "pv ''/SNOWFLAKE/PASSWORD'' = Some password"
    "pv ''/SNOWFLAKE/DATABASE'' = Some database"
    "pv ''/SNOWFLAKE/SCHEMA'' = Some schema"
    "pv ''/SNOWFLAKE/WAREHOUSE'' = Some warehouse"
  shows "sfOptions pv = Inr [(''sfURL'', url), (''sfAccount'', account), (''sfUser'', user),
            (''sfPassword'', password), (''sfDatabase'', database), (''sfSchema'', schema),
            (''sfWarehouse'', warehouse)]"
  using assms by (simp add: sfOptions_def getitem_def)

lemma store_without_params:
  "set params \<inter> dom (store_without missing) = set params - {missing}"
  by (auto simp: store_without_def dom_def)

text \<open>
  C4. For every request, each requested name that the store has is in the resolver's
  mapping with its value, and each requested name that the store lacks is left out of
  it; the resolver has no raising path of its own, and the keys of the mapping are the
  requested names the store has. So a request for the nine names of the notebook, one
  of them unavailable, gives a mapping with the other eight keys.
\<close>

theorem get_credentials_found_or_omitted:
  "(\<forall>n\<in>set R. get_credentials st R n = st n)
   \<and> dom (get_credentials st R) = set R \<inter> dom st"
  by (simp add: get_credentials_lookup get_credentials_dom)

theorem get_credentials_found_or_omitted_witness:
  "length params = 9
   \<and> ''/SNOWFLAKE/URL'' \<in> set params
   \<and> get_credentials (store_without ''/SNOWFLAKE/PREFIX'') params ''/SNOWFLAKE/URL''
       = Some ''value of /SNOWFLAKE/URL''
   \<and> ''/SNOWFLAKE/PREFIX'' \<in> set params
   \<and> get_credentials (store_without ''/SNOWFLAKE/PREFIX'') params ''/SNOWFLAKE/PREFIX'' = None
   \<and> dom (get_credentials (store_without ''/SNOWFLAKE/PREFIX'') params)
       = set params - {''/SNOWFLAKE/PREFIX''}
   \<and> card (dom (get_credentials (store_without ''/SNOWFLAKE/PREFIX'') params)) = 8"
proof -
  note t = get_credentials_found_or_omitted [of params "store_without ''/SNOWFLAKE/PREFIX''"]
  have len: "length params = 9"
    by (simp add: params_def)
  have m1: "''/SNOWFLAKE/URL'' \<in> set params" and m2: "''/SNOWFLAKE/PREFIX'' \<in> set params"
    by (simp_all add: params_def)
  have v1: "store_without ''/SNOWFLAKE/PREFIX'' ''/SNOWFLAKE/URL''
              = Some ''value of /SNOWFLAKE/URL''"
    using m1 by (simp add: store_without_def)
  have v2: "store_without ''/SNOWFLAKE/PREFIX'' ''/SNOWFLAKE/PREFIX'' = None"
    by (simp add: store_without_def)
  from t m1 v1 have g1: "get_credentials (store_without ''/SNOWFLAKE/PREFIX'') params
      ''/SNOWFLAKE/URL'' = Some ''value of /SNOWFLAKE/URL''"
    by simp
  from t m2 v2 have g2: "get_credentials (store_without ''/SNOWFLAKE/PREFIX'') params
      ''/SNOWFLAKE/PREFIX'' = None"
    by simp
  from t have d: "dom (get_credentials (store_without ''/SNOWFLAKE/PREFIX'') params)
      = set params - {''/SNOWFLAKE/PREFIX''}"
    by (simp add: store_without_params)
  have "card (set params - {''/SNOWFLAKE/PREFIX''}) = 8"
    by (simp add: params_def)
  with d have c: "card (dom (get_credentials (store_without ''/SNOWFLAKE/PREFIX'') params)) = 8"
    by simp
  from len m1 g1 m2 g2 d c show ?thesis by blast
qed

text \<open>
  C5. For every request, the resolver's mapping has no key that is not a name of the
  request.
\<close>

theorem get_credentials_keys_requested:
  "dom (get_credentials st R) \<subseteq> set R"
  by (simp add: get_credentials_dom)

theorem get_credentials_keys_requested_witness:
  "dom (get_credentials (store_without ''/SNOWFLAKE/PREFIX'') [''/SNOWFLAKE/URL'', ''/OTHER''])
     \<subseteq> {''/SNOWFLAKE/URL'', ''/OTHER''}"
  using get_credentials_keys_requested
    [of "store_without ''/SNOWFLAKE/PREFIX''" "[''/SNOWFLAKE/URL'', ''/OTHER'']"]
  by simp

text \<open>
  C9. If the parameter values lack one of the seven names that \<open>sfOptions\<close> reads,
  building the options raises \<^verbatim>\<open>KeyError\<close>, for the first of the seven that is missing,
  and binds nothing: the lookups are the first thing the construction does. If all
  seven are there, each of the seven option names is bound to the value of its
  parameter.
\<close>

theorem sfOptions_KeyError_or_complete:
  "((\<exists>n\<in>set option_names. pv n = None) \<longrightarrow>
      (\<exists>k. List.find (\<lambda>n. pv n = None) option_names = Some k
         \<and> sfOptions pv = Inl (KeyError k)))
   \<and> (pv ''/SNOWFLAKE/URL'' = Some url \<and> pv ''/SNOWFLAKE/ACCOUNT_ID'' = Some account
       \<and> pv ''/SNOWFLAKE/USER_ID'' = Some user \<and> pv ''/SNOWFLAKE/PASSWORD'' = Some password
       \<and> pv ''/SNOWFLAKE/DATABASE'' = Some database \<and> pv ''/SNOWFLAKE/SCHEMA'' = Some schema
       \<and> pv ''/SNOWFLAKE/WAREHOUSE'' = Some warehouse \<longrightarrow>
      sfOptions pv = Inr [(''sfURL'', url), (''sfAccount'', account), (''sfUser'', user),
        (''sfPassword'', password), (''sfDatabase'', database), (''sfSchema'', schema),
        (''sfWarehouse'', warehouse)])"
proof (intro conjI impI)
  assume "\<exists>n\<in>set option_names. pv n = None"
  then show "\<exists>k. List.find (\<lambda>n. pv n = None) option_names = Some k
      \<and> sfOptions pv = Inl (KeyError k)"
    by (rule sfOptions_missing)
next
  assume "pv ''/SNOWFLAKE/URL'' = Some url \<and> pv ''/SNOWFLAKE/ACCOUNT_ID'' = Some account
       \<and> pv ''/SNOWFLAKE/USER_ID'' = Some user \<and> pv ''/SNOWFLAKE/PASSWORD'' = Some password
       \<and> pv ''/SNOWFLAKE/DATABASE'' = Some database \<and> pv ''/SNOWFLAKE/SCHEMA'' = Some schema
       \<and> pv ''/SNOWFLAKE/WAREHOUSE'' = Some warehouse"
  then show "sfOptions pv = Inr [(''sfURL'', url), (''sfAccount'', account), (''sfUser'', user),
        (''sfPassword'', password), (''sfDatabase'', database), (''sfSchema'', schema),
        (''sfWarehouse'', warehouse)]"
    by (intro sfOptions_complete) simp_all
qed

theorem sfOptions_KeyError_or_complete_witness:
  "(\<exists>n\<in>set option_names. store_without ''/SNOWFLAKE/SCHEMA'' n = None)
   \<and> List.find (\<lambda>n. store_without ''/SNOWFLAKE/SCHEMA'' n = None) option_names
       = Some ''/SNOWFLAKE/SCHEMA''
   \<and> sfOptions (store_without ''/SNOWFLAKE/SCHEMA'') = Inl (KeyError ''/SNOWFLAKE/SCHEMA'')
   \<and> sfOptions (store_without ''/SNOWFLAKE/PREFIX'')
       = Inr [(''sfURL'', ''value of /SNOWFLAKE/URL''),
              (''sfAccount'', ''value of /SNOWFLAKE/ACCOUNT_ID''),
              (''sfUser'', ''value of /SNOWFLAKE/USER_ID''),
              (''sfPassword'', ''value of /SNOWFLAKE/PASSWORD''),
              (''sfDatabase'', ''value of /SNOWFLAKE/DATABASE''),
              (''sfSchema'', ''value of /SNOWFLAKE/SCHEMA''),
              (''sfWarehouse'', ''value of /SNOWFLAKE/WAREHOUSE'')]"
proof -
  have "''/SNOWFLAKE/SCHEMA'' \<in> set option_names"
    by (simp add: option_names_def)
  moreover have "store_without ''/SNOWFLAKE/SCHEMA'' ''/SNOWFLAKE/SCHEMA'' = None"
    by (simp add: store_without_def)
  ultimately have h: "\<exists>n\<in>set option_names. store_without ''/SNOWFLAKE/SCHEMA'' n = None"
    by blast
  have f: "List.find (\<lambda>n. store_without ''/SNOWFLAKE/SCHEMA'' n = None) option_names
             = Some ''/SNOWFLAKE/SCHEMA''"
    by (simp add: option_names_def store_without_def params_def)
  have all: "store_without ''/SNOWFLAKE/PREFIX'' ''/SNOWFLAKE/URL''
               = Some ''value of /SNOWFLAKE/URL''
     \<and> store_without ''/SNOWFLAKE/PREFIX'' ''/SNOWFLAKE/ACCOUNT_ID''
               = Some ''value of /SNOWFLAKE/ACCOUNT_ID''
     \<and> store_without ''/SNOWFLAKE/PREFIX'' ''/SNOWFLAKE/USER_ID''
               = Some ''value of /SNOWFLAKE/USER_ID''
     \<and> store_without ''/SNOWFLAKE/PREFIX'' ''/SNOWFLAKE/PASSWORD''
               = Some ''value of /SNOWFLAKE/PASSWORD''
     \<and> store_without ''/SNOWFLAKE/PREFIX'' ''/SNOWFLAKE/DATABASE''
               = Some ''value of /SNOWFLAKE/DATABASE''
     \<and> store_without ''/SNOWFLAKE/PREFIX'' ''/SNOWFLAKE/SCHEMA''
               = Some ''value of /SNOWFLAKE/SCHEMA''
     \<and> store_without ''/SNOWFLAKE/PREFIX'' ''/SNOWFLAKE/WAREHOUSE''
               = Some ''value of /SNOWFLAKE/WAREHOUSE''"
    by (simp add: store_without_def params_def)
  note missing = sfOptions_KeyError_or_complete
    [where pv = "store_without ''/SNOWFLAKE/SCHEMA''"]
  note complete = sfOptions_KeyError_or_complete
    [where pv = "store_without ''/SNOWFLAKE/PREFIX''"
       and url = "''value of /SNOWFLAKE/URL''"
       and account = "''value of /SNOWFLAKE/ACCOUNT_ID''"
       and user = "''value of /SNOWFLAKE/USER_ID''"
       and password = "''value of /SNOWFLAKE/PASSWORD''"
       and database = "''value of /SNOWFLAKE/DATABASE''"
       and schema = "''value of /SNOWFLAKE/SCHEMA''"
       and warehouse = "''value of /SNOWFLAKE/WAREHOUSE''"]
  from missing h f have "sfOptions (store_without ''/SNOWFLAKE/SCHEMA'')
      = Inl (KeyError ''/SNOWFLAKE/SCHEMA'')"
    by auto
  moreover from complete all have "sfOptions (store_without ''/SNOWFLAKE/PREFIX'')
       = Inr [(''sfURL'', ''value of /SNOWFLAKE/URL''),
              (''sfAccount'', ''value of /SNOWFLAKE/ACCOUNT_ID''),
              (''sfUser'', ''value of /SNOWFLAKE/USER_ID''),
              (''sfPassword'', ''value of /SNOWFLAKE/PASSWORD''),
              (''sfDatabase'', ''value of /SNOWFLAKE/DATABASE''),
              (''sfSchema'', ''value of /SNOWFLAKE/SCHEMA''),
              (''sfWarehouse'', ''value of /SNOWFLAKE/WAREHOUSE'')]"
    by blast
  ultimately show ?thesis using h f by blast
qed

end
